theory Spec2Isabelle
  imports Complex_Main "HOL-Library.Sublist" "HOL-Library.Multiset" "HOL-Library.AList"
begin

section \<open>Platform health monitor (platform-health)\<close>

text \<open>
  The numbers of the monitor, the scheduler and the strategies are modelled exactly:
  counters as \<open>nat\<close>, rates, latencies and delays as \<open>rat\<close>, clock readings
  (\<open>Date.now()\<close>, milliseconds) as \<open>int\<close>. Rounding of IEEE doubles and the
  saturation of counters beyond \<open>2^53\<close> are outside the model of these components
  (the rate limiter below is modelled with rounding). Log calls have no effect on the state
  and are left out.
\<close>

datatype PlatformSource =
  ARXIV | OPENALEX | PMC | EUROPEPMC | BIORXIV | MEDRXIV | CORE
  | SEMANTIC_SCHOLAR | CROSSREF | PUBMED | GOOGLE_SCHOLAR | IACR

record PlatformPerformanceMetrics =
  source :: PlatformSource
  successCount :: nat
  failureCount :: nat
  totalRequests :: nat
  successRate :: rat
  averageLatency :: rat
  lastChecked :: int
  consecutiveFailures :: nat
  isHealthy :: bool

definition MAX_CONSECUTIVE_FAILURES :: nat where
  "MAX_CONSECUTIVE_FAILURES = 3"

definition initMetrics :: "PlatformSource \<Rightarrow> int \<Rightarrow> PlatformPerformanceMetrics" where
  "initMetrics src now =
     \<lparr> source = src, successCount = 0, failureCount = 0, totalRequests = 0,
       successRate = 1, averageLatency = 0, lastChecked = now,
       consecutiveFailures = 0, isHealthy = True \<rparr>"

text \<open>
  The body of \<open>recordSuccess\<close> on the record that \<open>getMetrics\<close> returned. The
  assignments are made in the order of the source, each reading the fields written before it.
\<close>

definition recordSuccess_rec ::
  "PlatformPerformanceMetrics \<Rightarrow> rat \<Rightarrow> int \<Rightarrow> PlatformPerformanceMetrics" where
  "recordSuccess_rec m latency now =
     (let m1 = m\<lparr> successCount := successCount m + 1 \<rparr>;
          m2 = m1\<lparr> totalRequests := totalRequests m1 + 1 \<rparr>;
          m3 = m2\<lparr> consecutiveFailures := 0 \<rparr>;
          m4 = m3\<lparr> successRate := of_nat (successCount m3) / of_nat (totalRequests m3) \<rparr>;
          m5 = m4\<lparr> averageLatency :=
                  (averageLatency m4 * (of_nat (successCount m4) - 1) + latency)
                    / of_nat (successCount m4) \<rparr>;
          m6 = m5\<lparr> lastChecked := now \<rparr>
      in m6\<lparr> isHealthy := True \<rparr>)"

definition recordFailure_rec ::
  "PlatformPerformanceMetrics \<Rightarrow> int \<Rightarrow> PlatformPerformanceMetrics" where
  "recordFailure_rec m now =
     (let m1 = m\<lparr> failureCount := failureCount m + 1 \<rparr>;
          m2 = m1\<lparr> totalRequests := totalRequests m1 + 1 \<rparr>;
          m3 = m2\<lparr> consecutiveFailures := consecutiveFailures m2 + 1 \<rparr>;
          m4 = m3\<lparr> successRate := of_nat (successCount m3) / of_nat (totalRequests m3) \<rparr>;
          m5 = m4\<lparr> lastChecked := now \<rparr>
      in if consecutiveFailures m5 \<ge> MAX_CONSECUTIVE_FAILURES
         then m5\<lparr> isHealthy := False \<rparr> else m5)"

definition resetPlatformHealth_rec ::
  "PlatformPerformanceMetrics \<Rightarrow> PlatformPerformanceMetrics" where
  "resetPlatformHealth_rec m = m\<lparr> consecutiveFailures := 0, isHealthy := True \<rparr>"

text \<open>
  Everything the monitor can do to one provider's record. \<open>checkHealth\<close>,
  \<open>checkMultiplePlatforms\<close> and \<open>executeWithRetry\<close> change a record only through
  \<open>recordSuccess\<close> and \<open>recordFailure\<close>; \<open>getMetrics\<close>, \<open>isHealthy\<close>,
  \<open>getRetryStrategy\<close>, \<open>getSuggestedFallbacks\<close>, \<open>getAllMetrics\<close>,
  \<open>exportMetrics\<close> and \<open>clearCache\<close> only read an existing record, at whatever
  time they are called (\<open>Observe\<close>).
\<close>

datatype health_event =
  RecordSuccess rat int
  | RecordFailure int
  | ResetPlatformHealth
  | Observe int

fun health_step :: "PlatformPerformanceMetrics \<Rightarrow> health_event \<Rightarrow> PlatformPerformanceMetrics" where
  "health_step m (RecordSuccess latency now) = recordSuccess_rec m latency now"
| "health_step m (RecordFailure now) = recordFailure_rec m now"
| "health_step m ResetPlatformHealth = resetPlatformHealth_rec m"
| "health_step m (Observe now) = m"

definition health_run ::
  "PlatformSource \<Rightarrow> int \<Rightarrow> health_event list \<Rightarrow> PlatformPerformanceMetrics" where
  "health_run src t0 es = foldl health_step (initMetrics src t0) es"

text \<open>
  The monitor keeps the records in a map that \<open>getMetrics\<close> fills lazily. The source
  hands out a reference to the stored record and mutates it in place; here each operation
  returns the updated map. (The health-check cache is not read by any operation below and is
  left out.)
\<close>

type_synonym PlatformHealthMonitor = "PlatformSource \<rightharpoonup> PlatformPerformanceMetrics"

definition getMetrics ::
  "PlatformHealthMonitor \<Rightarrow> PlatformSource \<Rightarrow> int
     \<Rightarrow> PlatformPerformanceMetrics \<times> PlatformHealthMonitor" where
  "getMetrics mon src now =
     (case mon src of
        None \<Rightarrow> (initMetrics src now, mon(src \<mapsto> initMetrics src now))
      | Some m \<Rightarrow> (m, mon))"

definition recordSuccess ::
  "PlatformHealthMonitor \<Rightarrow> PlatformSource \<Rightarrow> rat \<Rightarrow> int \<Rightarrow> PlatformHealthMonitor" where
  "recordSuccess mon src latency now =
     (case getMetrics mon src now of
        (m, mon') \<Rightarrow> mon'(src \<mapsto> recordSuccess_rec m latency now))"

definition recordFailure ::
  "PlatformHealthMonitor \<Rightarrow> PlatformSource \<Rightarrow> int \<Rightarrow> PlatformHealthMonitor" where
  "recordFailure mon src now =
     (case getMetrics mon src now of
        (m, mon') \<Rightarrow> mon'(src \<mapsto> recordFailure_rec m now))"


record RetryStrategy =
  maxRetries :: int
  initialDelay :: int
  maxDelay :: int
  backoffMultiplier :: int
  retryableErrors :: "string list"

definition getRetryStrategy_rec :: "PlatformPerformanceMetrics \<Rightarrow> RetryStrategy" where
  "getRetryStrategy_rec m =
     (let baseStrategy =
            \<lparr> maxRetries = 3, initialDelay = 1000, maxDelay = 10000, backoffMultiplier = 2,
              retryableErrors = [''ECONNRESET'', ''ETIMEDOUT'', ''ENOTFOUND'', ''ECONNREFUSED'',
                                 ''429'', ''503'', ''504''] \<rparr>;
          baseStrategy1 =
            (if successRate m < 7 / 10
             then baseStrategy\<lparr> maxRetries := 2, maxDelay := 5000 \<rparr>
             else baseStrategy);
          baseStrategy2 =
            (if consecutiveFailures m > 0
             then baseStrategy1\<lparr> initialDelay := 2000 * int (consecutiveFailures m) \<rparr>
             else baseStrategy1)
      in baseStrategy2)"

definition getRetryStrategy ::
  "PlatformHealthMonitor \<Rightarrow> PlatformSource \<Rightarrow> int \<Rightarrow> RetryStrategy \<times> PlatformHealthMonitor" where
  "getRetryStrategy mon src now =
     (case getMetrics mon src now of (m, mon') \<Rightarrow> (getRetryStrategy_rec m, mon'))"

subsection \<open>Errors and retry\<close>

text \<open>
  What \<open>isRetryableError\<close> reads of a thrown value: \<open>message\<close>, \<open>code\<close>,
  \<open>statusCode\<close> and the text \<open>toString()\<close> gives. An absent or empty string is
  falsy for \<open>||\<close>. Thrown values are objects; codes are strings and status codes are
  non-negative integers, as the HTTP client produces them.
\<close>

record JsError =
  message :: string
  code :: "string option"
  statusCode :: "nat option"
  toString :: string

fun digit_char :: "nat \<Rightarrow> char" where
  "digit_char n = ''0123456789'' ! (n mod 10)"

fun nat_toString :: "nat \<Rightarrow> string" where
  "nat_toString n = (if n < 10 then [digit_char n] else nat_toString (n div 10) @ [digit_char n])"

declare nat_toString.simps [simp del]

fun str_includes :: "string \<Rightarrow> string \<Rightarrow> bool" where
  "str_includes [] t = (t = [])"
| "str_includes (c # s) t = (prefix t (c # s) \<or> str_includes s t)"

definition isRetryableError :: "JsError \<Rightarrow> RetryStrategy \<Rightarrow> bool" where
  "isRetryableError error strategy =
     (let errorMessage = (if message error \<noteq> [] then message error else toString error);
          errorCode = (case code error of
                         Some c \<Rightarrow> (if c \<noteq> [] then Some c
                                    else map_option nat_toString (statusCode error))
                       | None \<Rightarrow> map_option nat_toString (statusCode error))
      in list_ex (\<lambda>retryable. str_includes errorMessage retryable \<or> errorCode = Some retryable)
           (retryableErrors strategy))"

text \<open>
  The optional \<open>customStrategy\<close>: the fields it carries replace those of the provider's
  strategy (object spread).
\<close>

record PartialRetryStrategy =
  custom_maxRetries :: "int option"
  custom_initialDelay :: "int option"
  custom_maxDelay :: "int option"
  custom_backoffMultiplier :: "int option"
  custom_retryableErrors :: "string list option"

definition no_customStrategy :: PartialRetryStrategy where
  "no_customStrategy =
     \<lparr> custom_maxRetries = None, custom_initialDelay = None, custom_maxDelay = None,
       custom_backoffMultiplier = None, custom_retryableErrors = None \<rparr>"

definition spread_strategy :: "RetryStrategy \<Rightarrow> PartialRetryStrategy \<Rightarrow> RetryStrategy" where
  "spread_strategy s c =
     \<lparr> maxRetries = (case custom_maxRetries c of Some v \<Rightarrow> v | None \<Rightarrow> maxRetries s),
       initialDelay = (case custom_initialDelay c of Some v \<Rightarrow> v | None \<Rightarrow> initialDelay s),
       maxDelay = (case custom_maxDelay c of Some v \<Rightarrow> v | None \<Rightarrow> maxDelay s),
       backoffMultiplier =
         (case custom_backoffMultiplier c of Some v \<Rightarrow> v | None \<Rightarrow> backoffMultiplier s),
       retryableErrors =
         (case custom_retryableErrors c of Some v \<Rightarrow> v | None \<Rightarrow> retryableErrors s) \<rparr>"

text \<open>
  One call of the operation: it resolves with a value or rejects with an error, after some
  milliseconds. An operation is the sequence of its calls' outcomes, indexed by the number
  of earlier calls.
\<close>

datatype 'r attempt = Resolves 'r int | Rejects JsError int

type_synonym 'r operation = "nat \<Rightarrow> 'r attempt"

text \<open>\<open>setTimeout\<close> runs a delay outside \<open>1 .. 2^31 - 1\<close> as 1 ms.\<close>

definition sleep :: "int \<Rightarrow> int" where
  "sleep ms = (if 1 \<le> ms \<and> ms \<le> 2147483647 then ms else 1)"

text \<open>
  The result of \<open>executeWithRetry\<close>: the value returned (\<open>Inr\<close>) or thrown
  (\<open>Inl\<close>; \<open>None\<close> is \<open>undefined\<close>, thrown after a loop that never ran), the
  monitor afterwards, how many times the operation was called, and the clock at the end.
\<close>

record 'r retry_result =
  outcome :: "JsError option + 'r"
  monitor_after :: PlatformHealthMonitor
  attempts :: nat
  finished_at :: int

function retry_loop ::
  "PlatformHealthMonitor \<Rightarrow> PlatformSource \<Rightarrow> 'r operation \<Rightarrow> RetryStrategy
     \<Rightarrow> JsError option \<Rightarrow> int \<Rightarrow> nat \<Rightarrow> int \<Rightarrow> 'r retry_result" where
  "retry_loop mon src operation strategy lastError delay attempt now =
     (if int attempt \<le> maxRetries strategy then
        (case operation attempt of
           Resolves result d \<Rightarrow>
             \<lparr> outcome = Inr result,
               monitor_after = recordSuccess mon src (of_int d) (now + d),
               attempts = attempt + 1, finished_at = now + d \<rparr>
         | Rejects error d \<Rightarrow>
             (let mon' = recordFailure mon src (now + d) in
              if \<not> isRetryableError error strategy \<or> int attempt = maxRetries strategy
              then \<lparr> outcome = Inl (Some error), monitor_after = mon',
                     attempts = attempt + 1, finished_at = now + d \<rparr>
              else retry_loop mon' src operation strategy (Some error)
                     (min (delay * backoffMultiplier strategy) (maxDelay strategy))
                     (attempt + 1) (now + d + sleep delay)))
      else \<lparr> outcome = Inl lastError, monitor_after = mon,
             attempts = attempt, finished_at = now \<rparr>)"
  by pat_completeness auto
termination
  by (relation "measure (\<lambda>(mon, src, operation, strategy, lastError, delay, attempt, now).
                   nat (maxRetries strategy + 1 - int attempt))") auto

declare retry_loop.simps [simp del]

definition executeWithRetry ::
  "PlatformHealthMonitor \<Rightarrow> PlatformSource \<Rightarrow> 'r operation \<Rightarrow> PartialRetryStrategy \<Rightarrow> int
     \<Rightarrow> 'r retry_result" where
  "executeWithRetry mon src operation customStrategy now =
     (case getRetryStrategy mon src now of
        (s, mon') \<Rightarrow>
          (let strategy = spread_strategy s customStrategy
           in retry_loop mon' src operation strategy None (initialDelay strategy) 0 now))"

text \<open>Two errors as the HTTP client throws them, for the examples below.\<close>

definition ETIMEDOUT_error :: JsError where
  "ETIMEDOUT_error =
     \<lparr> message = ''connect ETIMEDOUT 10.0.0.1:443'', code = Some ''ETIMEDOUT'',
       statusCode = None, toString = ''Error: connect ETIMEDOUT 10.0.0.1:443'' \<rparr>"

definition unauthorized_error :: JsError where
  "unauthorized_error =
     \<lparr> message = ''Request failed with status code 401'', code = Some ''ERR_BAD_REQUEST'',
       statusCode = Some 401, toString = ''Error: Request failed with status code 401'' \<rparr>"

text \<open>Latencies are clock differences and health-check latencies: not negative.\<close>

fun nonneg_latency :: "health_event \<Rightarrow> bool" where
  "nonneg_latency (RecordSuccess l t) = (0 \<le> l)"
| "nonneg_latency e = True"


section \<open>Task scheduler (search-task)\<close>

text \<open>
  A driver, as far as the scheduler and the strategies use it: its platform and the
  behaviour of its \<open>search\<close> calls for the query at hand. Field names that several
  interfaces of the source share (\<open>source\<close>, \<open>latency\<close>) carry the record's name here.
\<close>

record 'r IDriver =
  driver_source :: PlatformSource
  search :: "'r operation"

record TaskEstimate =
  latency :: rat
  reliability :: rat

record 'r SearchTask =
  task_source :: PlatformSource
  driver :: "'r IDriver"
  priority :: rat
  estimate :: TaskEstimate

text \<open>The task that the callback of \<open>drivers.map\<close> builds from a driver and its record.\<close>

definition searchTask_of :: "'r IDriver \<Rightarrow> PlatformPerformanceMetrics \<Rightarrow> 'r SearchTask" where
  "searchTask_of d healthMetrics =
     \<lparr> task_source = driver_source d, driver = d,
       priority = successRate healthMetrics * 100 - averageLatency healthMetrics / 10,
       estimate = \<lparr> latency = (if averageLatency healthMetrics \<noteq> 0
                                then averageLatency healthMetrics else 1000),
                    reliability = successRate healthMetrics \<rparr> \<rparr>"

fun createSearchTasks_map ::
  "PlatformHealthMonitor \<Rightarrow> 'r IDriver list \<Rightarrow> int
     \<Rightarrow> 'r SearchTask list \<times> PlatformHealthMonitor" where
  "createSearchTasks_map mon [] now = ([], mon)"
| "createSearchTasks_map mon (d # ds) now =
     (case getMetrics mon (driver_source d) now of
        (healthMetrics, mon1) \<Rightarrow>
          (case createSearchTasks_map mon1 ds now of
             (tasks, mon2) \<Rightarrow> (searchTask_of d healthMetrics # tasks, mon2)))"

text \<open>
  \<open>Array.prototype.sort\<close> is stable; the comparator \<open>b.priority - a.priority\<close> orders
  by descending priority.
\<close>

definition createSearchTasks ::
  "PlatformHealthMonitor \<Rightarrow> 'r IDriver list \<Rightarrow> int
     \<Rightarrow> 'r SearchTask list \<times> PlatformHealthMonitor" where
  "createSearchTasks mon drivers now =
     (case createSearchTasks_map mon drivers now of
        (tasks, mon') \<Rightarrow> (sort_key (\<lambda>t. - priority t) tasks, mon'))"

text \<open>
  \<open>maxConcurrency\<close> is an integer (the tool schema demands a positive integer up to 20).
  For an empty task list the source's average is \<open>0/0 = NaN\<close>, which is not above 5000;
  the division by zero of \<open>rat\<close> gives 0, with the same outcome.
\<close>

definition calculateOptimalConcurrency :: "'r SearchTask list \<Rightarrow> int \<Rightarrow> int" where
  "calculateOptimalConcurrency tasks maxConcurrency =
     (let concurrency = maxConcurrency;
          healthyTasks = filter (\<lambda>task. reliability (estimate task) > 7 / 10) tasks;
          unhealthyTasks = int (length tasks) - int (length healthyTasks);
          concurrency1 =
            (if (of_int unhealthyTasks :: rat) > of_nat (length tasks) * (3 / 10)
             then max 2 \<lfloor>(of_int concurrency :: rat) * (6 / 10)\<rfloor>
             else concurrency);
          avgEstimatedLatency =
            foldl (\<lambda>sum task. sum + latency (estimate task)) 0 tasks / of_nat (length tasks);
          concurrency2 =
            (if avgEstimatedLatency > 5000
             then min maxConcurrency \<lceil>(of_int concurrency1 :: rat) * (3 / 2)\<rceil>
             else concurrency1)
      in max 1 (min concurrency2 (int (length tasks))))"

section \<open>Platform scoring (search-strategy)\<close>

text \<open>\<open>preferredTime || 2000\<close>: an absent or zero preferred time gives the target 2000 ms.\<close>

definition calculateResponseScore :: "rat \<Rightarrow> rat option \<Rightarrow> rat" where
  "calculateResponseScore platformResponseTime preferredTime =
     (let targetTime = (case preferredTime of
                          Some p \<Rightarrow> (if p \<noteq> 0 then p else 2000)
                        | None \<Rightarrow> 2000)
      in if platformResponseTime \<le> targetTime then 1
         else if platformResponseTime \<ge> targetTime * 3 then 2 / 10
         else 1 - (platformResponseTime - targetTime) / (targetTime * 2))"

section \<open>Rate limiter (rate-limiter)\<close>

subsection \<open>Double arithmetic\<close>

text \<open>
  The token count is a JavaScript number and every operation on it rounds to the nearest
  IEEE 754 double, ties to even. A finite double is a rational; \<open>to_double\<close> rounds a
  rational to the nearest double: 53 significant bits in the binade of the argument, the
  fixed spacing \<open>2^-1074\<close> in the subnormal range. Overflow to infinity and \<open>NaN\<close> are
  not covered (they need a magnitude of \<open>2^1024\<close> or a refill rate of 0).
\<close>

definition pow2 :: "int \<Rightarrow> rat" where
  "pow2 e = (if 0 \<le> e then 2 ^ nat e else 1 / 2 ^ nat (- e))"

text \<open>
  The binade of a positive \<open>x\<close> is the \<open>e\<close> with \<open>2^e \<le> x < 2^(e+1)\<close>. The search halves
  or doubles at most 1100 times, which covers every finite double.
\<close>

fun binade_search :: "nat \<Rightarrow> rat \<Rightarrow> int" where
  "binade_search 0 x = 0"
| "binade_search (Suc n) x =
     (if x < 1 then binade_search n (x * 2) - 1
      else if 2 \<le> x then binade_search n (x / 2) + 1
      else 0)"

definition binade :: "rat \<Rightarrow> int" where
  "binade x = binade_search 1100 \<bar>x\<bar>"

definition round_half_even :: "rat \<Rightarrow> int" where
  "round_half_even x =
     (let f = \<lfloor>x\<rfloor>; d = x - of_int f
      in if d < 1 / 2 then f else if 1 / 2 < d then f + 1 else if even f then f else f + 1)"

definition to_double :: "rat \<Rightarrow> rat" where
  "to_double x =
     (if x = 0 then 0
      else (let ulp = pow2 (max (binade x - 52) (- 1074))
            in of_int (round_half_even (x / ulp)) * ulp))"

subsection \<open>The limiter\<close>

text \<open>
  \<open>maxTokens\<close> and \<open>refillRate\<close> are the doubles the configuration gives. Clock
  readings are integers well below \<open>2^53\<close>, so their difference is exact; the division,
  the product, the sum and the later subtraction each round.
\<close>

record RateLimiterOptions =
  maxTokens :: rat
  refillRate :: rat

record RateLimiter =
  options :: RateLimiterOptions
  tokens :: rat
  lastRefill :: int

text \<open>The constructor, run when the clock reads \<open>now\<close>.\<close>

definition new_RateLimiter :: "RateLimiterOptions \<Rightarrow> int \<Rightarrow> RateLimiter" where
  "new_RateLimiter opts now = \<lparr> options = opts, tokens = maxTokens opts, lastRefill = now \<rparr>"

definition refill :: "RateLimiter \<Rightarrow> int \<Rightarrow> RateLimiter" where
  "refill rl now =
     (let elapsed = to_double (of_int (now - lastRefill rl) / 1000);
          tokensToAdd = to_double (elapsed * refillRate (options rl))
      in rl\<lparr> tokens := min (maxTokens (options rl)) (to_double (tokens rl + tokensToAdd)),
             lastRefill := now \<rparr>)"

text \<open>\<open>(1 - this.tokens) / this.options.refillRate * 1000\<close>, evaluated left to right.\<close>

definition waitTime :: "RateLimiter \<Rightarrow> rat" where
  "waitTime rl =
     to_double (to_double (to_double (1 - tokens rl) / refillRate (options rl)) * 1000)"

text \<open>
  \<open>acquire\<close> is an async function: it runs up to its next \<open>await\<close> and is resumed later,
  and in between other callers of the same limiter run. A caller is identified by a number
  and is at one of these points:
  \<^item> \<open>FirstRefillDone\<close>: the first \<open>refill\<close> has run (it runs at once when \<open>acquire\<close> is
    called) and the caller awaits its result;
  \<^item> \<open>TimerSet t ms\<close>: the caller found less than one token when the clock read \<open>t\<close>
    and awaits a timeout of \<open>ms\<close> milliseconds;
  \<^item> \<open>SecondRefillDone\<close>: the timeout has fired, the second \<open>refill\<close> has run and the
    caller awaits its result;
  \<^item> \<open>AcquireDone\<close>: the token has been taken (\<open>this.tokens -= 1\<close>) and the call has
    returned.
  \<open>Call c now\<close> is caller \<open>c\<close> entering \<open>acquire\<close>, \<open>Resume c now\<close> the
  continuation of \<open>c\<close> after its pending \<open>await\<close>, both when the clock reads \<open>now\<close>.
  \<open>tokens_at_consumption\<close> is not in the source: it records the token count found at
  each \<open>this.tokens -= 1\<close>.
\<close>

datatype acquire_pc = FirstRefillDone | TimerSet int rat | SecondRefillDone | AcquireDone

datatype acquire_event = Call nat int | Resume nat int

record limiter_run =
  limiter :: RateLimiter
  callers :: "nat \<rightharpoonup> acquire_pc"
  tokens_at_consumption :: "rat list"

definition consume :: "limiter_run \<Rightarrow> nat \<Rightarrow> limiter_run" where
  "consume s c =
     s\<lparr> limiter := (limiter s)\<lparr> tokens := to_double (tokens (limiter s) - 1) \<rparr>,
        callers := (callers s)(c \<mapsto> AcquireDone),
        tokens_at_consumption := tokens_at_consumption s @ [tokens (limiter s)] \<rparr>"

fun acquire_step :: "limiter_run \<Rightarrow> acquire_event \<Rightarrow> limiter_run" where
  "acquire_step s (Call c now) =
     s\<lparr> limiter := refill (limiter s) now, callers := (callers s)(c \<mapsto> FirstRefillDone) \<rparr>"
| "acquire_step s (Resume c now) =
     (case callers s c of
        Some FirstRefillDone \<Rightarrow>
          (if tokens (limiter s) < 1
           then s\<lparr> callers := (callers s)(c \<mapsto> TimerSet now (waitTime (limiter s))) \<rparr>
           else consume s c)
      | Some (TimerSet set_at ms) \<Rightarrow>
          s\<lparr> limiter := refill (limiter s) now,
             callers := (callers s)(c \<mapsto> SecondRefillDone) \<rparr>
      | Some SecondRefillDone \<Rightarrow> consume s c
      | Some AcquireDone \<Rightarrow> s
      | None \<Rightarrow> s)"

definition start_run :: "RateLimiterOptions \<Rightarrow> int \<Rightarrow> limiter_run" where
  "start_run opts now =
     \<lparr> limiter = new_RateLimiter opts now, callers = Map.empty, tokens_at_consumption = [] \<rparr>"

definition acquire_run :: "RateLimiterOptions \<Rightarrow> int \<Rightarrow> acquire_event list \<Rightarrow> limiter_run" where
  "acquire_run opts now events = foldl acquire_step (start_run opts now) events"

text \<open>
  A list of events is a run the runtime can produce when the clock never reads earlier
  than at the last refill, a caller number enters once, only a pending caller is resumed,
  and no timeout fires before its delay has passed.
\<close>

fun event_time :: "acquire_event \<Rightarrow> int" where
  "event_time (Call c now) = now"
| "event_time (Resume c now) = now"

fun event_due :: "limiter_run \<Rightarrow> acquire_event \<Rightarrow> bool" where
  "event_due s (Call c now) = (callers s c = None)"
| "event_due s (Resume c now) =
     (case callers s c of
        Some FirstRefillDone \<Rightarrow> True
      | Some (TimerSet set_at ms) \<Rightarrow> ms \<le> of_int (now - set_at)
      | Some SecondRefillDone \<Rightarrow> True
      | Some AcquireDone \<Rightarrow> False
      | None \<Rightarrow> False)"

fun on_time :: "limiter_run \<Rightarrow> acquire_event list \<Rightarrow> bool" where
  "on_time s [] = True"
| "on_time s (e # es) =
     (lastRefill (limiter s) \<le> event_time e \<and> event_due s e
      \<and> on_time (acquire_step s e) es)"

section \<open>Result merging and deduplication (result-processor)\<close>

text \<open>
  A JavaScript string is a sequence of UTF-16 code units; \<open>js_string\<close> is the list of
  their numbers (each below 65536). Two strings are the same \<open>Map\<close> key exactly when
  their code units agree. \<open>utf16\<close> gives the code units of an ASCII literal.
\<close>

type_synonym js_string = "nat list"









text \<open>
  The fields of a paper that merging reads. An optional field is \<open>None\<close> when it is
  \<open>undefined\<close> or \<open>null\<close>. A citation count is an integer. In a condition
  JavaScript takes an absent or empty string and an absent or zero number as false
  (\<open>truthy_string\<close>, \<open>truthy_number\<close>); an array is true even when empty.
\<close>

record Author =
  name :: js_string

record Paper =
  paper_id :: js_string
  paper_source :: PlatformSource
  doi :: "js_string option"
  title :: js_string
  authors :: "Author list"
  abstract :: "js_string option"
  paper_keywords :: "js_string list option"
  citationCount :: "int option"
  fullTextAvailable :: bool







record SearchResult =
  papers :: "Paper list"
  total :: nat

record SearchResultWrapper =
  wrapper_source :: PlatformSource
  result :: "SearchResult option"
  error :: "JsError option"
  wrapper_latency :: int
  timestamp :: int




subsection \<open>The specification of merging\<close>














section \<open>Execution strategies (execution-strategies, parallel-search)\<close>

datatype ParallelStrategy = FULL_PARALLEL | BATCH_PARALLEL | SMART_PARALLEL | SEQUENTIAL

text \<open>
  The configuration fields the strategies read. \<open>batchSize\<close> and \<open>timeout\<close> are
  optional; 0 counts as absent (\<open>config.batchSize || 3\<close>, \<open>if (config.timeout)\<close>).
\<close>

record ParallelSearchConfig =
  strategy :: ParallelStrategy
  maxConcurrency :: int
  batchSize :: "nat option"
  timeout :: "nat option"

text \<open>
  The error of \<open>withTimeout\<close>; its message starts with four Chinese characters, given
  here as their UTF-8 bytes, followed by the timeout and \<open>ms\<close>.
\<close>

definition timeout_message :: "nat \<Rightarrow> string" where
  "timeout_message timeoutMs =
     [CHR 0xE6, CHR 0x90, CHR 0x9C, CHR 0xE7, CHR 0xB4, CHR 0xA2,
      CHR 0xE8, CHR 0xB6, CHR 0x85, CHR 0xE6, CHR 0x97, CHR 0xB6]
     @ '': '' @ nat_toString timeoutMs @ ''ms''"

definition timeout_error :: "nat \<Rightarrow> JsError" where
  "timeout_error timeoutMs =
     \<lparr> message = timeout_message timeoutMs, code = None, statusCode = None,
       toString = ''Error: '' @ timeout_message timeoutMs \<rparr>"

fun duration :: "'r attempt \<Rightarrow> int" where
  "duration (Resolves v d) = d"
| "duration (Rejects e d) = d"

text \<open>
  \<open>withTimeout\<close>: the call's own outcome when it settles no later than the timer, the
  timeout error at the timer's time otherwise.
\<close>

definition withTimeout :: "'r attempt \<Rightarrow> nat \<Rightarrow> 'r attempt" where
  "withTimeout a timeoutMs =
     (if duration a \<le> sleep (int timeoutMs) then a
      else Rejects (timeout_error timeoutMs) (sleep (int timeoutMs)))"

definition search_operation ::
  "SearchResult SearchTask \<Rightarrow> ParallelSearchConfig \<Rightarrow> SearchResult operation" where
  "search_operation task config =
     (\<lambda>n. case timeout config of
             Some t \<Rightarrow> (if t \<noteq> 0 then withTimeout (search (driver task) n) t
                        else search (driver task) n)
           | None \<Rightarrow> search (driver task) n)"

text \<open>
  \<open>executeSearchTask\<close> started when the clock reads \<open>now\<close>: the wrapper its promise
  fulfils with, the monitor afterwards and the time at which the promise settles. Both
  branches of the \<open>try\<close> return a wrapper; the promise never rejects.
\<close>

definition executeSearchTask ::
  "PlatformHealthMonitor \<Rightarrow> SearchResult SearchTask \<Rightarrow> ParallelSearchConfig \<Rightarrow> int
     \<Rightarrow> SearchResultWrapper \<times> PlatformHealthMonitor \<times> int" where
  "executeSearchTask mon task config now =
     (let startTime = now;
          r = executeWithRetry mon (task_source task) (search_operation task config)
                no_customStrategy now
      in (case outcome r of
            Inr res \<Rightarrow>
              \<lparr> wrapper_source = task_source task, result = Some res, error = None,
                wrapper_latency = finished_at r - startTime, timestamp = finished_at r \<rparr>
          | Inl err \<Rightarrow>
              \<lparr> wrapper_source = task_source task, result = None, error = err,
                wrapper_latency = finished_at r - startTime, timestamp = finished_at r \<rparr>,
          monitor_after r, finished_at r))"

text \<open>
  A promise of \<open>executeSearchTask\<close> as the strategies see it: how it settles and when.
  Tasks running side by side share the monitor; their updates are applied in the order in
  which the tasks were started, which is what any interleaving computes when the tasks
  belong to different providers (each task touches its own provider's record only).
\<close>

datatype 'a settled = Fulfilled 'a | RejectedWith "JsError option"

type_synonym task_promise = "SearchResultWrapper settled \<times> int"

definition searchTask_promise ::
  "PlatformHealthMonitor \<Rightarrow> SearchResult SearchTask \<Rightarrow> ParallelSearchConfig \<Rightarrow> int
     \<Rightarrow> task_promise \<times> PlatformHealthMonitor" where
  "searchTask_promise mon task config now =
     (case executeSearchTask mon task config now of
        (w, mon', settles_at) \<Rightarrow> ((Fulfilled w, settles_at), mon'))"

text \<open>\<open>tasks.map(task => this.executeSearchTask(...))\<close>: all tasks start at once.\<close>

fun start_all ::
  "PlatformHealthMonitor \<Rightarrow> SearchResult SearchTask list \<Rightarrow> ParallelSearchConfig \<Rightarrow> int
     \<Rightarrow> task_promise list \<times> PlatformHealthMonitor" where
  "start_all mon [] config now = ([], mon)"
| "start_all mon (task # tasks) config now =
     (case searchTask_promise mon task config now of
        (promise, mon1) \<Rightarrow>
          (case start_all mon1 tasks config now of
             (promises, mon2) \<Rightarrow> (promise # promises, mon2)))"

text \<open>The callback that turns the outcomes of \<open>Promise.allSettled\<close> into wrappers.\<close>

definition settled_wrapper ::
  "int \<Rightarrow> SearchResult SearchTask \<times> task_promise \<Rightarrow> SearchResultWrapper" where
  "settled_wrapper all_settled_at tp =
     (case fst (snd tp) of
        Fulfilled v \<Rightarrow> v
      | RejectedWith reason \<Rightarrow>
          \<lparr> wrapper_source = task_source (fst tp), result = None, error = reason,
            wrapper_latency = 0, timestamp = all_settled_at \<rparr>)"

definition all_settled_at :: "int \<Rightarrow> task_promise list \<Rightarrow> int" where
  "all_settled_at now promises = foldl max now (map snd promises)"

definition executeFullParallel ::
  "PlatformHealthMonitor \<Rightarrow> SearchResult SearchTask list \<Rightarrow> ParallelSearchConfig \<Rightarrow> int
     \<Rightarrow> SearchResultWrapper list \<times> PlatformHealthMonitor \<times> int" where
  "executeFullParallel mon tasks config now =
     (case start_all mon tasks config now of
        (promises, mon') \<Rightarrow>
          (map (settled_wrapper (all_settled_at now promises)) (zip tasks promises),
           mon', all_settled_at now promises))"

text \<open>
  The batches of \<open>executeBatchParallel\<close>, one after the other. The batch size is never
  0 there (\<open>config.batchSize || 3\<close>).
\<close>

function batch_loop ::
  "nat \<Rightarrow> PlatformHealthMonitor \<Rightarrow> SearchResult SearchTask list \<Rightarrow> ParallelSearchConfig
     \<Rightarrow> int \<Rightarrow> SearchResultWrapper list
     \<Rightarrow> SearchResultWrapper list \<times> PlatformHealthMonitor \<times> int" where
  "batch_loop batch_size mon remaining config now results =
     (if remaining = [] \<or> batch_size = 0 then (results, mon, now)
      else (case executeFullParallel mon (take batch_size remaining) config now of
              (processedResults, mon', now') \<Rightarrow>
                batch_loop batch_size mon' (drop batch_size remaining) config now'
                  (results @ processedResults)))"
  by pat_completeness auto
termination
  by (relation "measure (\<lambda>(batch_size, mon, remaining, config, now, results). length remaining)")
     auto

declare batch_loop.simps [simp del]

definition executeBatchParallel ::
  "PlatformHealthMonitor \<Rightarrow> SearchResult SearchTask list \<Rightarrow> ParallelSearchConfig \<Rightarrow> int
     \<Rightarrow> SearchResultWrapper list \<times> PlatformHealthMonitor \<times> int" where
  "executeBatchParallel mon tasks config now =
     (let batch_size = (case batchSize config of Some b \<Rightarrow> (if b \<noteq> 0 then b else 3) | None \<Rightarrow> 3)
      in batch_loop batch_size mon tasks config now [])"

fun executeSequential_loop ::
  "PlatformHealthMonitor \<Rightarrow> SearchResult SearchTask list \<Rightarrow> ParallelSearchConfig \<Rightarrow> int
     \<Rightarrow> SearchResultWrapper list
     \<Rightarrow> SearchResultWrapper list \<times> PlatformHealthMonitor \<times> int" where
  "executeSequential_loop mon [] config now results = (results, mon, now)"
| "executeSequential_loop mon (task # tasks) config now results =
     (case searchTask_promise mon task config now of
        ((Fulfilled v, settles_at), mon') \<Rightarrow>
          executeSequential_loop mon' tasks config settles_at (results @ [v])
      | ((RejectedWith reason, settles_at), mon') \<Rightarrow>
          executeSequential_loop mon' tasks config settles_at
            (results @ [\<lparr> wrapper_source = task_source task, result = None, error = reason,
                          wrapper_latency = 0, timestamp = settles_at \<rparr>]))"

definition executeSequential ::
  "PlatformHealthMonitor \<Rightarrow> SearchResult SearchTask list \<Rightarrow> ParallelSearchConfig \<Rightarrow> int
     \<Rightarrow> SearchResultWrapper list \<times> PlatformHealthMonitor \<times> int" where
  "executeSequential mon tasks config now = executeSequential_loop mon tasks config now []"

subsection \<open>Smart parallel\<close>

text \<open>
  How \<open>executeSmartParallel\<close> can end: it returns its results (with the monitor, the
  clock and the record of in-flight counts), it rejects because an awaited promise
  rejected, or its loop runs on forever without awaiting anything.
\<close>

datatype smart_outcome =
  Returned "SearchResultWrapper list" PlatformHealthMonitor int "nat list"
  | Throws "JsError option"
  | Spins

text \<open>The inner \<open>while\<close>: start queued tasks while the window has room.\<close>

fun fill_window ::
  "int \<Rightarrow> ParallelSearchConfig \<Rightarrow> PlatformHealthMonitor \<Rightarrow> int \<Rightarrow> task_promise list
     \<Rightarrow> task_promise list \<Rightarrow> SearchResult SearchTask list
     \<Rightarrow> PlatformHealthMonitor \<times> task_promise list \<times> task_promise list
         \<times> SearchResult SearchTask list" where
  "fill_window optimalConcurrency config mon now executing started [] =
     (mon, executing, started, [])"
| "fill_window optimalConcurrency config mon now executing started (task # queue) =
     (if int (length executing) < optimalConcurrency
      then (case searchTask_promise mon task config now of
              (promise, mon') \<Rightarrow>
                fill_window optimalConcurrency config mon' now (executing @ [promise])
                  (started @ [promise]) queue)
      else (mon, executing, started, task # queue))"

text \<open>
  \<open>Promise.race\<close> on a non-empty array: of the promises already settled the first in
  array order wins; when none has settled yet, the one that settles first (the earlier in
  the array on equal times).
\<close>

definition race :: "int \<Rightarrow> task_promise list \<Rightarrow> task_promise" where
  "race now executing =
     (case filter (\<lambda>p. snd p \<le> now) executing of
        p # ps \<Rightarrow> p
      | [] \<Rightarrow> arg_min_list snd executing)"

text \<open>
  \<open>executing.findIndex(async p => await p === result)\<close>: the callback is an async
  function, so what \<open>findIndex\<close> tests is the promise it returns, which is truthy for
  every element. The index found is 0 whenever the array is not empty.
\<close>

definition findIndex_async :: "task_promise list \<Rightarrow> SearchResultWrapper \<Rightarrow> int" where
  "findIndex_async executing res = (if executing = [] then - 1 else 0)"

definition splice_one :: "'a list \<Rightarrow> nat \<Rightarrow> 'a list" where
  "splice_one xs i = take i xs @ drop (i + 1) xs"

text \<open>Started and not yet settled, when the clock reads \<open>now\<close>.\<close>

definition in_flight :: "int \<Rightarrow> task_promise list \<Rightarrow> nat" where
  "in_flight now started = length (filter (\<lambda>p. now < snd p) started)"

lemma fill_window_lengths:
  assumes "fill_window oc config mon now executing started queue = (mon1, executing1, started1, queue1)"
  shows "length executing1 + length queue1 = length executing + length queue
       \<and> length queue1 \<le> length queue"
  using assms
proof (induction queue arbitrary: mon executing started)
  case Nil
  then show ?case by simp
next
  case (Cons task queue)
  show ?case
  proof (cases "int (length executing) < oc")
    case True
    obtain promise mon' where p: "searchTask_promise mon task config now = (promise, mon')"
      by (cases "searchTask_promise mon task config now")
    have "fill_window oc config mon' now (executing @ [promise]) (started @ [promise]) queue
            = (mon1, executing1, started1, queue1)"
      using Cons.prems True p by simp
    from Cons.IH [OF this] show ?thesis by simp
  next
    case False
    then show ?thesis using Cons.prems by simp
  qed
qed

text \<open>
  The outer \<open>while\<close>. \<open>started\<close> (every promise created so far) and
  \<open>flight_log\<close> (the number of tasks in flight each time the window has been refilled)
  are not in the source: they record what it does.
\<close>

function smart_loop ::
  "int \<Rightarrow> ParallelSearchConfig \<Rightarrow> PlatformHealthMonitor \<Rightarrow> int \<Rightarrow> SearchResultWrapper list
     \<Rightarrow> task_promise list \<Rightarrow> task_promise list \<Rightarrow> SearchResult SearchTask list \<Rightarrow> nat list
     \<Rightarrow> smart_outcome" where
  "smart_loop optimalConcurrency config mon now results executing started queue flight_log =
     (if queue = [] \<and> executing = [] then Returned results mon now flight_log
      else (case fill_window optimalConcurrency config mon now executing started queue of
              (mon1, executing1, started1, queue1) \<Rightarrow>
                (if executing1 = [] then Spins
                 else (case race now executing1 of
                         (RejectedWith reason, settles_at) \<Rightarrow> Throws reason
                       | (Fulfilled res, settles_at) \<Rightarrow>
                           smart_loop optimalConcurrency config mon1 (max now settles_at)
                             (results @ [res])
                             (if findIndex_async executing1 res \<noteq> - 1
                              then splice_one executing1 (nat (findIndex_async executing1 res))
                              else executing1)
                             started1 queue1 (flight_log @ [in_flight now started1])))))"
  by pat_completeness auto
termination
proof (relation "measure (\<lambda>(oc, config, mon, now, results, executing, started, queue, flight_log).
                    2 * length queue + length executing)", goal_cases)
  case 1
  then show ?case by simp
next
  case 2
  then show ?case
    by (auto simp add: findIndex_async_def splice_one_def neq_Nil_conv
          dest!: fill_window_lengths [OF sym])
qed

declare smart_loop.simps [simp del]

definition executeSmartParallel ::
  "PlatformHealthMonitor \<Rightarrow> SearchResult SearchTask list \<Rightarrow> ParallelSearchConfig \<Rightarrow> int \<Rightarrow> int
     \<Rightarrow> smart_outcome" where
  "executeSmartParallel mon tasks config optimalConcurrency now =
     smart_loop optimalConcurrency config mon now [] [] [] tasks []"

subsection \<open>The orchestrator\<close>

text \<open>
  \<open>executeParallelSearch\<close> up to the results of the chosen strategy (the metrics
  computed from them afterwards are left out). \<open>config\<close> is the merged configuration.
\<close>

definition executeParallelSearch ::
  "PlatformHealthMonitor \<Rightarrow> SearchResult IDriver list \<Rightarrow> ParallelSearchConfig \<Rightarrow> int
     \<Rightarrow> smart_outcome" where
  "executeParallelSearch mon drivers config now =
     (case createSearchTasks mon drivers now of
        (tasks, mon1) \<Rightarrow>
          (case strategy config of
             FULL_PARALLEL \<Rightarrow>
               (case executeFullParallel mon1 tasks config now of
                  (results, mon2, t) \<Rightarrow> Returned results mon2 t [])
           | BATCH_PARALLEL \<Rightarrow>
               (case executeBatchParallel mon1 tasks config now of
                  (results, mon2, t) \<Rightarrow> Returned results mon2 t [])
           | SMART_PARALLEL \<Rightarrow>
               executeSmartParallel mon1 tasks config
                 (calculateOptimalConcurrency tasks (maxConcurrency config)) now
           | SEQUENTIAL \<Rightarrow>
               (case executeSequential mon1 tasks config now of
                  (results, mon2, t) \<Rightarrow> Returned results mon2 t [])))"

subsection \<open>What a run returned, and what a wrapper owes its task\<close>

definition outcome_results :: "smart_outcome \<Rightarrow> SearchResultWrapper list option" where
  "outcome_results out = (case out of Returned rs mon t l \<Rightarrow> Some rs | Throws e \<Rightarrow> None | Spins \<Rightarrow> None)"

definition outcome_flight_log :: "smart_outcome \<Rightarrow> nat list option" where
  "outcome_flight_log out = (case out of Returned rs mon t l \<Rightarrow> Some l | Throws e \<Rightarrow> None | Spins \<Rightarrow> None)"

text \<open>
  A driver whose every search resolves, with no papers, after \<open>d\<close> ms; and a
  configuration choosing the smart strategy.
\<close>

definition driver_taking :: "PlatformSource \<Rightarrow> int \<Rightarrow> SearchResult IDriver" where
  "driver_taking src d =
     \<lparr> driver_source = src, search = (\<lambda>n. Resolves \<lparr> papers = [], total = 0 \<rparr> d) \<rparr>"

definition smart_config :: "int \<Rightarrow> ParallelSearchConfig" where
  "smart_config c =
     \<lparr> strategy = SMART_PARALLEL, maxConcurrency = c, batchSize = Some 3, timeout = Some 30000 \<rparr>"

text \<open>
  A wrapper stands for a task when it names the task's platform and carries either a
  result or an error.
\<close>

definition wrapper_for :: "SearchResult SearchTask \<Rightarrow> SearchResultWrapper \<Rightarrow> bool" where
  "wrapper_for task w =
     (wrapper_source w = task_source task \<and> (result w = None) \<noteq> (error w = None))"

fun fulfilled_for :: "SearchResult SearchTask \<Rightarrow> task_promise \<Rightarrow> bool" where
  "fulfilled_for task (Fulfilled w, t) = wrapper_for task w"
| "fulfilled_for task (RejectedWith e, t) = False"

fun is_fulfilled :: "task_promise \<Rightarrow> bool" where
  "is_fulfilled (Fulfilled w, t) = True"
| "is_fulfilled (RejectedWith e, t) = False"

section \<open>Health record: streak and flag\<close>










section \<open>Retry strategy\<close>

lemma getRetryStrategy_reads:
  "fst (getRetryStrategy mon src now) =
     getRetryStrategy_rec (case mon src of Some m \<Rightarrow> m | None \<Rightarrow> initMetrics src now)"
  by (simp add: getRetryStrategy_def getMetrics_def split: option.split)

text \<open>
  Claim C8, as the code has it. For every provider, with \<open>m\<close> its health record (the
  fresh one when none exists yet), \<open>getRetryStrategy\<close> returns \<open>maxRetries\<close> 3 and
  \<open>maxDelay\<close> 10000, or 2 and 5000 when \<open>successRate < 0.7\<close>; \<open>backoffMultiplier\<close> 2;
  and \<open>initialDelay\<close> 1000 when \<open>consecutiveFailures\<close> is 0, else
  \<open>2000 * consecutiveFailures\<close> (not the base 1000 scaled).
\<close>

theorem getRetryStrategy_policy:
  fixes mon :: PlatformHealthMonitor and src :: PlatformSource and now :: int
  defines "m \<equiv> (case mon src of Some m \<Rightarrow> m | None \<Rightarrow> initMetrics src now)"
  shows "fst (getRetryStrategy mon src now) =
     \<lparr> maxRetries = (if successRate m < 7 / 10 then 2 else 3),
       initialDelay = (if consecutiveFailures m > 0
                       then 2000 * int (consecutiveFailures m) else 1000),
       maxDelay = (if successRate m < 7 / 10 then 5000 else 10000),
       backoffMultiplier = 2,
       retryableErrors = [''ECONNRESET'', ''ETIMEDOUT'', ''ENOTFOUND'', ''ECONNREFUSED'',
                          ''429'', ''503'', ''504''] \<rparr>"
  unfolding getRetryStrategy_reads m_def [symmetric]
  by (simp add: getRetryStrategy_rec_def Let_def)

text \<open>
  The claim as written fails after a single failure: the streak is 1 and the initial delay
  is 2000 ms, not \<open>1000 * 1\<close>.
\<close>

theorem getRetryStrategy_scaled_base_counterexample:
  "consecutiveFailures (the (recordFailure Map.empty PUBMED 5 PUBMED)) = 1
   \<and> initialDelay (fst (getRetryStrategy (recordFailure Map.empty PUBMED 5) PUBMED 6)) = 2000
   \<and> initialDelay (fst (getRetryStrategy (recordFailure Map.empty PUBMED 5) PUBMED 6))
       \<noteq> 1000 * int (consecutiveFailures (the (recordFailure Map.empty PUBMED 5 PUBMED)))"
  by (simp add: getRetryStrategy_def getMetrics_def recordFailure_def recordFailure_rec_def
        initMetrics_def getRetryStrategy_rec_def MAX_CONSECUTIVE_FAILURES_def Let_def)

section \<open>Optimal concurrency\<close>

lemma floor_six_tenths_le:
  assumes "0 \<le> c"
  shows "\<lfloor>(of_int c :: rat) * (6 / 10)\<rfloor> \<le> c"
proof -
  have "(of_int c :: rat) * (6 / 10) \<le> of_int c"
    using assms by simp
  then have "\<lfloor>(of_int c :: rat) * (6 / 10)\<rfloor> \<le> \<lfloor>(of_int c :: rat)\<rfloor>"
    by (rule floor_mono)
  then show ?thesis by simp
qed

text \<open>
  For \<open>maxC \<ge> 2\<close> the result lies between 1 and
  \<open>min(maxC, taskCount)\<close>.
\<close>

lemma calculateOptimalConcurrency_bounds:
  assumes "tasks \<noteq> []" and "2 \<le> maxC"
  shows "1 \<le> calculateOptimalConcurrency tasks maxC
       \<and> calculateOptimalConcurrency tasks maxC
            \<le> min maxC (int (length tasks))"
proof -
  have len: "1 \<le> int (length tasks)"
    using assms(1) by (cases tasks) simp_all
  have fl: "max 2 \<lfloor>(of_int maxC :: rat) * (6 / 10)\<rfloor> \<le> maxC"
    using assms(2) floor_six_tenths_le [of maxC] by simp
  show ?thesis
    using len fl assms(2)
    by (simp add: calculateOptimalConcurrency_def Let_def min_def max_def)
qed

text \<open>
  Claim C7 at \<open>maxConcurrency = 1\<close>: two providers that have each failed once
  (reliability 0, estimated latency 1000 ms) are scheduled with concurrency 2, above
  \<open>min(maxConcurrency, taskCount) = 1\<close>. The degraded branch takes
  \<open>max(2, floor(0.6 * maxConcurrency))\<close> without the cap the latency branch applies.
\<close>

theorem calculateOptimalConcurrency_exceeds_max:
  "calculateOptimalConcurrency
     (fst (createSearchTasks (recordFailure (recordFailure Map.empty ARXIV 1) PUBMED 2)
        [\<lparr> driver_source = ARXIV, search = (\<lambda>n. Resolves () 10) \<rparr>,
         \<lparr> driver_source = PUBMED, search = (\<lambda>n. Resolves () 10) \<rparr>] 3))
     1 = 2"
  by (simp add: calculateOptimalConcurrency_def createSearchTasks_def getMetrics_def
        searchTask_of_def recordFailure_def recordFailure_rec_def initMetrics_def
        MAX_CONSECUTIVE_FAILURES_def Let_def)

section \<open>Providers without a health record\<close>

lemma getMetrics_after_getMetrics:
  "fst (getMetrics (snd (getMetrics mon s now)) s' now) = fst (getMetrics mon s' now)"
  by (simp add: getMetrics_def split: option.split)

lemma createSearchTasks_map_reads:
  assumes "\<And>s. fst (getMetrics mon' s now) = fst (getMetrics mon s now)"
  shows "fst (createSearchTasks_map mon' ds now) =
           map (\<lambda>d. searchTask_of d (fst (getMetrics mon (driver_source d) now))) ds"
  using assms
proof (induction ds arbitrary: mon')
  case Nil
  then show ?case by simp
next
  case (Cons d ds)
  obtain hm mon1 where g: "getMetrics mon' (driver_source d) now = (hm, mon1)"
    by (cases "getMetrics mon' (driver_source d) now")
  have hm: "hm = fst (getMetrics mon (driver_source d) now)"
    using g Cons.prems [of "driver_source d"] by simp
  have mon1: "mon1 = snd (getMetrics mon' (driver_source d) now)"
    using g by simp
  have step: "\<And>s. fst (getMetrics mon1 s now) = fst (getMetrics mon s now)"
    unfolding mon1 by (simp add: getMetrics_after_getMetrics Cons.prems)
  have ih: "fst (createSearchTasks_map mon1 ds now) =
              map (\<lambda>d. searchTask_of d (fst (getMetrics mon (driver_source d) now))) ds"
    by (rule Cons.IH) (rule step)
  obtain ts mon2 where r: "createSearchTasks_map mon1 ds now = (ts, mon2)"
    by (cases "createSearchTasks_map mon1 ds now")
  show ?case
    using ih by (simp add: g r hm)
qed

lemma createSearchTasks_unsorted:
  "fst (createSearchTasks_map mon ds now) =
     map (\<lambda>d. searchTask_of d (fst (getMetrics mon (driver_source d) now))) ds"
  by (rule createSearchTasks_map_reads) simp



lemma createSearchTasks_sources:
  "mset (map task_source (fst (createSearchTasks mon ds now))) = mset (map driver_source ds)"
proof -
  have "map task_source (fst (createSearchTasks_map mon ds now)) = map driver_source ds"
    unfolding createSearchTasks_unsorted by (simp add: comp_def searchTask_of_def)
  then have "mset (map task_source (fst (createSearchTasks_map mon ds now)))
               = mset (map driver_source ds)"
    by simp
  then show ?thesis
    by (cases "createSearchTasks_map mon ds now") (simp add: createSearchTasks_def)
qed

lemma health_step_rate_bounds:
  assumes "successCount m \<le> totalRequests m" and "0 \<le> averageLatency m"
    and "nonneg_latency e" and "successRate m \<le> 1"
  shows "successCount (health_step m e) \<le> totalRequests (health_step m e)
       \<and> 0 \<le> averageLatency (health_step m e)
       \<and> successRate (health_step m e) \<le> 1"
  using assms
  by (cases e)
     (simp_all add: recordSuccess_rec_def recordFailure_rec_def resetPlatformHealth_rec_def
        MAX_CONSECUTIVE_FAILURES_def Let_def)

lemma foldl_health_rate_bounds:
  assumes "successCount m \<le> totalRequests m" and "0 \<le> averageLatency m"
    and "successRate m \<le> 1" and "list_all nonneg_latency es"
  shows "0 \<le> averageLatency (foldl health_step m es)
       \<and> successRate (foldl health_step m es) \<le> 1"
  using assms
proof (induction es arbitrary: m)
  case Nil
  then show ?case by simp
next
  case (Cons e es)
  have e: "nonneg_latency e" and es: "list_all nonneg_latency es"
    using Cons.prems(4) by simp_all
  have s: "successCount (health_step m e) \<le> totalRequests (health_step m e)
       \<and> 0 \<le> averageLatency (health_step m e)
       \<and> successRate (health_step m e) \<le> 1"
    by (rule health_step_rate_bounds) (use Cons.prems e in simp_all)
  show ?case
    using Cons.IH [of "health_step m e"] s es by simp
qed

text \<open>
  Every record the monitor can hold has \<open>successRate \<le> 1\<close> and
  \<open>averageLatency \<ge> 0\<close>, so no task's priority exceeds 100.
\<close>

lemma health_run_rate_bounds:
  assumes "list_all nonneg_latency es"
  shows "0 \<le> averageLatency (health_run src t0 es) \<and> successRate (health_run src t0 es) \<le> 1"
  unfolding health_run_def
  by (rule foldl_health_rate_bounds) (simp_all add: initMetrics_def assms)






section \<open>Response-time score\<close>

lemma calculateResponseScore_at_or_under_target:
  assumes "rt \<le> 2000"
  shows "calculateResponseScore rt None = 1"
  using assms by (simp add: calculateResponseScore_def)

lemma calculateResponseScore_beyond_three_targets:
  assumes "6000 \<le> rt"
  shows "calculateResponseScore rt None = 2 / 10"
  using assms by (simp add: calculateResponseScore_def)

text \<open>
  Claim C9, at a response time of 4000 ms (the slowest platform of the metadata table) and
  a preferred time of 1400 ms: the score is \<open>1 - 2600/2800 = 1/14\<close>, below the floor of
  0.2 that a response time of \<open>3 * 1400 = 4200\<close> ms or more receives. The linear part
  runs from 1 down to 0 at three times the target, not down to 0.2.
\<close>

theorem calculateResponseScore_below_floor:
  "calculateResponseScore 4000 (Some 1400) = 1 / 14
   \<and> calculateResponseScore 4000 (Some 1400) < 2 / 10
   \<and> calculateResponseScore 4200 (Some 1400) = 2 / 10"
  by (simp add: calculateResponseScore_def)

section \<open>Token bucket\<close>

text \<open>
  The rounding at a familiar value: the double nearest to one tenth is
  \<open>3602879701896397 / 2^55\<close>; \<open>2^53 + 1\<close>, halfway between two doubles, goes to the
  even one.
\<close>

lemma to_double_one_tenth: "to_double (1 / 10) = 3602879701896397 / 2 ^ 55"
  by code_simp

lemma to_double_tie_to_even: "to_double (2 ^ 53 + 1) = 2 ^ 53"
  by code_simp

text \<open>
  Claim C4, at two runs of a limiter with \<open>maxTokens = 1\<close>.

  First run, \<open>refillRate = 10\<close>, one call after the other: a call at 0 ms takes the
  token; a call at 14 ms refills to the double next above 0.14, computes a wait of exactly
  86 ms and is woken on time at 100 ms; its refill adds \<open>0.086 * 10\<close>, in doubles the
  one next below 0.86, and the sum rounds to \<open>1 - 2^-53\<close>: that is the token count it
  finds when it takes a token, and it leaves \<open>-2^-53\<close>.

  Second run, \<open>refillRate = 1\<close>, three callers sharing the limiter, all calling at 0 ms
  (every number in this run is an integer, exact in doubles): the first takes the token,
  the other two each wait the computed 1000 ms; woken on time, the second refills to 1 and
  takes the token, the third refills with no time elapsed, finds 0 tokens and leaves -1.
\<close>

theorem acquire_goes_negative:
  "on_time (start_run \<lparr> maxTokens = 1, refillRate = 10 \<rparr> 0)
     [Call 0 0, Resume 0 0, Call 1 14, Resume 1 14, Resume 1 100, Resume 1 100]
   \<and> tokens_at_consumption (acquire_run \<lparr> maxTokens = 1, refillRate = 10 \<rparr> 0
        [Call 0 0, Resume 0 0, Call 1 14, Resume 1 14, Resume 1 100, Resume 1 100])
       = [1, 1 - 1 / 2 ^ 53]
   \<and> tokens (limiter (acquire_run \<lparr> maxTokens = 1, refillRate = 10 \<rparr> 0
        [Call 0 0, Resume 0 0, Call 1 14, Resume 1 14, Resume 1 100, Resume 1 100]))
       = - 1 / 2 ^ 53
   \<and> on_time (start_run \<lparr> maxTokens = 1, refillRate = 1 \<rparr> 0)
       [Call 0 0, Call 1 0, Call 2 0, Resume 0 0, Resume 1 0, Resume 2 0,
        Resume 1 1000, Resume 1 1000, Resume 2 1000, Resume 2 1000]
   \<and> tokens_at_consumption (acquire_run \<lparr> maxTokens = 1, refillRate = 1 \<rparr> 0
        [Call 0 0, Call 1 0, Call 2 0, Resume 0 0, Resume 1 0, Resume 2 0,
         Resume 1 1000, Resume 1 1000, Resume 2 1000, Resume 2 1000])
       = [1, 1, 0]
   \<and> tokens (limiter (acquire_run \<lparr> maxTokens = 1, refillRate = 1 \<rparr> 0
        [Call 0 0, Call 1 0, Call 2 0, Resume 0 0, Resume 1 0, Resume 2 0,
         Resume 1 1000, Resume 1 1000, Resume 2 1000, Resume 2 1000]))
       = - 1"
  by code_simp

section \<open>Retry loop\<close>

text \<open>
  What a run of the loop from attempt \<open>a\<close> did: it called the operation at least once
  and at most up to attempt \<open>maxRetries\<close>; every call but the last rejected with a
  retryable error; the last call either resolved, and its value is returned, or rejected
  with an error that is thrown, being not retryable or met at attempt \<open>maxRetries\<close>.
\<close>

lemma retry_loop_trace:
  assumes "int a \<le> maxRetries st"
  shows "a < attempts (retry_loop mon src op st le delay a now)
       \<and> int (attempts (retry_loop mon src op st le delay a now)) \<le> maxRetries st + 1
       \<and> (\<forall>i. a \<le> i \<and> i + 1 < attempts (retry_loop mon src op st le delay a now)
              \<longrightarrow> (\<exists>e d. op i = Rejects e d \<and> isRetryableError e st))
       \<and> (case op (attempts (retry_loop mon src op st le delay a now) - 1) of
             Resolves v d \<Rightarrow> outcome (retry_loop mon src op st le delay a now) = Inr v
           | Rejects e d \<Rightarrow>
               outcome (retry_loop mon src op st le delay a now) = Inl (Some e)
               \<and> (\<not> isRetryableError e st
                   \<or> int (attempts (retry_loop mon src op st le delay a now) - 1) = maxRetries st))"
  using assms
proof (induction mon src op st le delay a now rule: retry_loop.induct)
  case (1 mon src operation strat lastError delay attempt now)
  show ?case
  proof (cases "operation attempt")
    case (Resolves v d)
    then show ?thesis
      using "1.prems" by (auto simp add: retry_loop.simps [of _ _ _ _ _ _ attempt])
  next
    case (Rejects e d)
    show ?thesis
    proof (cases "\<not> isRetryableError e strat \<or> int attempt = maxRetries strat")
      case True
      then show ?thesis
        using "1.prems" Rejects by (auto simp add: retry_loop.simps [of _ _ _ _ _ _ attempt] Let_def)
    next
      case False
      then have lt: "int (attempt + 1) \<le> maxRetries strat"
        using "1.prems" by simp
      note ih = "1.IH" [OF "1.prems" Rejects refl False lt]
      have unfold: "retry_loop mon src operation strat lastError delay attempt now =
          retry_loop (recordFailure mon src (now + d)) src operation strat (Some e)
            (min (delay * backoffMultiplier strat) (maxDelay strat)) (attempt + 1)
            (now + d + sleep delay)"
        using "1.prems" Rejects False
        by (subst retry_loop.simps) (simp add: Let_def)
      have first: "\<exists>e d. operation attempt = Rejects e d \<and> isRetryableError e strat"
        using Rejects False by simp
      define r where "r = retry_loop (recordFailure mon src (now + d)) src operation strat
            (Some e) (min (delay * backoffMultiplier strat) (maxDelay strat)) (attempt + 1)
            (now + d + sleep delay)"
      have ih1: "attempt + 1 < attempts r" and ih2: "int (attempts r) \<le> maxRetries strat + 1"
        and ih3: "\<And>i. attempt + 1 \<le> i \<Longrightarrow> i + 1 < attempts r
                    \<Longrightarrow> \<exists>e d. operation i = Rejects e d \<and> isRetryableError e strat"
        and ih4: "case operation (attempts r - 1) of
                    Resolves v d \<Rightarrow> outcome r = Inr v
                  | Rejects e d \<Rightarrow> outcome r = Inl (Some e)
                      \<and> (\<not> isRetryableError e strat \<or> int (attempts r - 1) = maxRetries strat)"
        using ih unfolding r_def by blast+
      have earlier: "\<exists>e d. operation i = Rejects e d \<and> isRetryableError e strat"
        if "attempt \<le> i" and "i + 1 < attempts r" for i
      proof (cases "i = attempt")
        case True
        then show ?thesis using first by simp
      next
        case False
        then have "attempt + 1 \<le> i" using that(1) by simp
        then show ?thesis using ih3 that(2) by blast
      qed
      show ?thesis
        unfolding unfold r_def [symmetric]
        using ih1 ih2 ih4 earlier by simp
    qed
  qed
qed

text \<open>
  Claim C2. Let \<open>strat\<close> be the provider's retry strat with the caller's overrides
  and \<open>maxRetries \<ge> 0\<close>. (1) If the operation rejects with a retryable error on its
  first \<open>maxRetries\<close> calls and resolves on the next, \<open>executeWithRetry\<close> returns that
  value after exactly \<open>maxRetries + 1\<close> calls. (2) In every run, a rejection of the
  operation is rethrown (ending the run) if and only if its error is not retryable or it
  came at attempt \<open>maxRetries\<close>; the run makes between 1 and \<open>maxRetries + 1\<close> calls
  and throws nothing but the error of its last call.
\<close>

theorem executeWithRetry_attempts_and_rethrow:
  fixes mon :: PlatformHealthMonitor and src :: PlatformSource and operation :: "'r operation"
    and custom :: PartialRetryStrategy and now :: int
  defines "strat \<equiv> spread_strategy (fst (getRetryStrategy mon src now)) custom"
  defines "r \<equiv> executeWithRetry mon src operation custom now"
  assumes budget: "0 \<le> maxRetries strat"
  shows "((\<forall>i < nat (maxRetries strat).
              \<exists>e d. operation i = Rejects e d \<and> isRetryableError e strat)
            \<and> (\<exists>d. operation (nat (maxRetries strat)) = Resolves v d)
          \<longrightarrow> outcome r = Inr v \<and> attempts r = nat (maxRetries strat) + 1)
       \<and> (\<forall>i e d. i < attempts r \<and> operation i = Rejects e d \<longrightarrow>
             ((outcome r = Inl (Some e) \<and> i + 1 = attempts r)
                \<longleftrightarrow> (\<not> isRetryableError e strat \<or> int i = maxRetries strat)))
       \<and> 1 \<le> attempts r \<and> int (attempts r) \<le> maxRetries strat + 1
       \<and> (\<forall>x. outcome r = Inl x \<longrightarrow>
             (\<exists>e d. x = Some e \<and> operation (attempts r - 1) = Rejects e d))"
proof -
  obtain s mon' where g: "getRetryStrategy mon src now = (s, mon')"
    by (cases "getRetryStrategy mon src now")
  have st: "strat = spread_strategy s custom"
    by (simp add: strat_def g)
  have r: "r = retry_loop mon' src operation strat None (initialDelay strat) 0 now"
    by (simp add: r_def executeWithRetry_def g st Let_def)
  have zero: "int 0 \<le> maxRetries strat"
    using budget by simp
  note tr = retry_loop_trace [OF zero, of mon' src operation None "initialDelay strat" now,
      folded r]
  have n1: "0 < attempts r" and n2: "int (attempts r) \<le> maxRetries strat + 1"
    and early: "\<And>i. i + 1 < attempts r
                  \<Longrightarrow> \<exists>e d. operation i = Rejects e d \<and> isRetryableError e strat"
    and last: "case operation (attempts r - 1) of
                 Resolves v d \<Rightarrow> outcome r = Inr v
               | Rejects e d \<Rightarrow> outcome r = Inl (Some e)
                   \<and> (\<not> isRetryableError e strat \<or> int (attempts r - 1) = maxRetries strat)"
    using tr by simp_all
  have part1: "outcome r = Inr v \<and> attempts r = nat (maxRetries strat) + 1"
    if fails: "\<forall>i < nat (maxRetries strat).
                 \<exists>e d. operation i = Rejects e d \<and> isRetryableError e strat"
      and ok: "\<exists>d. operation (nat (maxRetries strat)) = Resolves v d"
  proof -
    have "\<not> attempts r - 1 < nat (maxRetries strat)"
    proof
      assume lt: "attempts r - 1 < nat (maxRetries strat)"
      then obtain e d where "operation (attempts r - 1) = Rejects e d"
        and "isRetryableError e strat"
        using fails by blast
      then have "int (attempts r - 1) = maxRetries strat"
        using last by simp
      then show False
        using lt by linarith
    qed
    then have n: "attempts r - 1 = nat (maxRetries strat)"
      using n1 n2 by linarith
    then show ?thesis
      using last ok n1 by auto
  qed
  have part2: "(outcome r = Inl (Some e) \<and> i + 1 = attempts r)
                \<longleftrightarrow> (\<not> isRetryableError e strat \<or> int i = maxRetries strat)"
    if i: "i < attempts r" and rej: "operation i = Rejects e d" for i e d
  proof (cases "i + 1 = attempts r")
    case True
    then have "attempts r - 1 = i" by simp
    then show ?thesis
      using last rej True by simp
  next
    case False
    then have lt: "i + 1 < attempts r" using i by simp
    then have "isRetryableError e strat"
      using early [OF lt] rej by simp
    moreover have "int i \<noteq> maxRetries strat"
      using lt n2 by linarith
    ultimately show ?thesis
      using False by simp
  qed
  have part3: "\<exists>e d. x = Some e \<and> operation (attempts r - 1) = Rejects e d"
    if "outcome r = Inl x" for x
    using last that by (cases "operation (attempts r - 1)") auto
  have c1: "(\<forall>i < nat (maxRetries strat).
              \<exists>e d. operation i = Rejects e d \<and> isRetryableError e strat)
            \<and> (\<exists>d. operation (nat (maxRetries strat)) = Resolves v d)
          \<longrightarrow> outcome r = Inr v \<and> attempts r = nat (maxRetries strat) + 1"
    using part1 by blast
  have c2: "\<forall>i e d. i < attempts r \<and> operation i = Rejects e d \<longrightarrow>
             ((outcome r = Inl (Some e) \<and> i + 1 = attempts r)
                \<longleftrightarrow> (\<not> isRetryableError e strat \<or> int i = maxRetries strat))"
    using part2 by blast
  have c3: "1 \<le> attempts r"
    using n1 by simp
  have c4: "\<forall>x. outcome r = Inl x \<longrightarrow>
             (\<exists>e d. x = Some e \<and> operation (attempts r - 1) = Rejects e d)"
    using part3 by blast
  from c1 c2 c3 n2 c4 show ?thesis
    by (intro conjI)
qed

theorem executeWithRetry_attempts_and_rethrow_witness:
  "maxRetries (spread_strategy (fst (getRetryStrategy Map.empty ARXIV 0)) no_customStrategy) = 3
   \<and> isRetryableError ETIMEDOUT_error
        (spread_strategy (fst (getRetryStrategy Map.empty ARXIV 0)) no_customStrategy)
   \<and> outcome (executeWithRetry Map.empty ARXIV
        (\<lambda>i. if i < 3 then Rejects ETIMEDOUT_error 100 else Resolves (42 :: nat) 100)
        no_customStrategy 0) = Inr 42
   \<and> attempts (executeWithRetry Map.empty ARXIV
        (\<lambda>i. if i < 3 then Rejects ETIMEDOUT_error 100 else Resolves (42 :: nat) 100)
        no_customStrategy 0) = 4
   \<and> outcome (executeWithRetry Map.empty ARXIV
        (\<lambda>i. Rejects ETIMEDOUT_error 100 :: nat attempt) no_customStrategy 0)
       = Inl (Some ETIMEDOUT_error)
   \<and> attempts (executeWithRetry Map.empty ARXIV
        (\<lambda>i. Rejects ETIMEDOUT_error 100 :: nat attempt) no_customStrategy 0) = 4
   \<and> \<not> isRetryableError unauthorized_error
        (spread_strategy (fst (getRetryStrategy Map.empty ARXIV 0)) no_customStrategy)
   \<and> outcome (executeWithRetry Map.empty ARXIV
        (\<lambda>i. Rejects unauthorized_error 100 :: nat attempt) no_customStrategy 0)
       = Inl (Some unauthorized_error)
   \<and> attempts (executeWithRetry Map.empty ARXIV
        (\<lambda>i. Rejects unauthorized_error 100 :: nat attempt) no_customStrategy 0) = 1"
  using executeWithRetry_attempts_and_rethrow
          [where mon = Map.empty and src = ARXIV and now = 0 and custom = no_customStrategy
             and v = 42
             and operation = "\<lambda>i. if i < 3 then Rejects ETIMEDOUT_error 100
                                   else Resolves (42 :: nat) 100"]
        executeWithRetry_attempts_and_rethrow
          [where mon = Map.empty and src = ARXIV and now = 0 and custom = no_customStrategy
             and v = 42
             and operation = "\<lambda>i. Rejects ETIMEDOUT_error 100 :: nat attempt"]
        executeWithRetry_attempts_and_rethrow
          [where mon = Map.empty and src = ARXIV and now = 0 and custom = no_customStrategy
             and v = 42
             and operation = "\<lambda>i. Rejects unauthorized_error 100 :: nat attempt"]
  by (simp add: executeWithRetry_def spread_strategy_def no_customStrategy_def
        isRetryableError_def getRetryStrategy_def getMetrics_def getRetryStrategy_rec_def
        initMetrics_def ETIMEDOUT_error_def unauthorized_error_def Let_def retry_loop.simps
        nat_toString.simps)

section \<open>Merging and deduplication\<close>


































section \<open>Execution strategies\<close>

text \<open>
  \<open>executeSearchTask\<close> catches every failure: its promise fulfils with a wrapper for
  its task. Full-parallel, batch-parallel and sequential execution therefore return exactly
  one wrapper per task, in the order of the tasks.
\<close>

lemma searchTask_of_fields:
  "task_source (searchTask_of d m) = driver_source d"
  "driver (searchTask_of d m) = d"
  "priority (searchTask_of d m) = successRate m * 100 - averageLatency m / 10"
  "latency (estimate (searchTask_of d m)) = (if averageLatency m \<noteq> 0 then averageLatency m else 1000)"
  "reliability (estimate (searchTask_of d m)) = successRate m"
  by (simp_all add: searchTask_of_def)

lemma getRetryStrategy_budget:
  "0 \<le> maxRetries (fst (getRetryStrategy mon src now))"
  by (simp add: getRetryStrategy_reads getRetryStrategy_rec_def Let_def)

lemma searchTask_promise_first_try:
  assumes "search (driver task) 0 = Resolves r d"
    and "timeout config = Some t" and "d \<le> sleep (int t)"
  shows "fst (searchTask_promise mon task config now) =
           (Fulfilled \<lparr> wrapper_source = task_source task, result = Some r, error = None,
                         wrapper_latency = d, timestamp = now + d \<rparr>, now + d)"
proof -
  obtain s mon' where g: "getRetryStrategy mon (task_source task) now = (s, mon')"
    by (cases "getRetryStrategy mon (task_source task) now")
  have b: "0 \<le> maxRetries s"
    using getRetryStrategy_budget [of mon "task_source task" now] g by simp
  have op: "search_operation task config 0 = Resolves r d"
    using assms by (simp add: search_operation_def withTimeout_def)
  have "retry_loop mon' (task_source task) (search_operation task config)
          (spread_strategy s no_customStrategy) None
          (initialDelay (spread_strategy s no_customStrategy)) 0 now
        = \<lparr> outcome = Inr r,
            monitor_after = recordSuccess mon' (task_source task) (of_int d) (now + d),
            attempts = 1, finished_at = now + d \<rparr>"
    using b op
    by (subst retry_loop.simps) (simp add: spread_strategy_def no_customStrategy_def)
  then show ?thesis
    by (simp add: searchTask_promise_def executeSearchTask_def executeWithRetry_def g Let_def)
qed

lemma driver_taking_fields:
  "driver_source (driver_taking src d) = src"
  "search (driver_taking src d) n = Resolves \<lparr> papers = [], total = 0 \<rparr> d"
  by (simp_all add: driver_taking_def)

lemma smart_config_fields:
  "strategy (smart_config c) = SMART_PARALLEL" "maxConcurrency (smart_config c) = c"
  "timeout (smart_config c) = Some 30000"
  by (simp_all add: smart_config_def)

lemma fresh_promise:
  assumes "0 \<le> d" and "d \<le> 30000"
  shows "fst (searchTask_promise mon (searchTask_of (driver_taking src d) m) (smart_config c) now) =
           (Fulfilled \<lparr> wrapper_source = src, result = Some \<lparr> papers = [], total = 0 \<rparr>,
                         error = None, wrapper_latency = d, timestamp = now + d \<rparr>, now + d)"
  using searchTask_promise_first_try
          [of "searchTask_of (driver_taking src d) m" "\<lparr> papers = [], total = 0 \<rparr>" d
              "smart_config c" 30000 mon now]
        assms
  by (simp add: searchTask_of_fields driver_taking_fields smart_config_fields sleep_def)

lemma executeSearchTask_wrapper:
  "wrapper_for task (fst (executeSearchTask mon task config now))"
proof -
  obtain s mon' where g: "getRetryStrategy mon (task_source task) now = (s, mon')"
    by (cases "getRetryStrategy mon (task_source task) now")
  let ?st = "spread_strategy s no_customStrategy"
  let ?r = "retry_loop mon' (task_source task) (search_operation task config) ?st None
              (initialDelay ?st) 0 now"
  have b: "int 0 \<le> maxRetries ?st"
    using getRetryStrategy_budget [of mon "task_source task" now] g
    by (simp add: spread_strategy_def no_customStrategy_def)
  have r: "executeWithRetry mon (task_source task) (search_operation task config)
             no_customStrategy now = ?r"
    by (simp add: executeWithRetry_def g Let_def)
  have "case search_operation task config (attempts ?r - 1) of
          Resolves v d \<Rightarrow> outcome ?r = Inr v
        | Rejects e d \<Rightarrow> outcome ?r = Inl (Some e)
            \<and> (\<not> isRetryableError e ?st \<or> int (attempts ?r - 1) = maxRetries ?st)"
    using retry_loop_trace [OF b] by blast
  then have "(\<exists>v. outcome ?r = Inr v) \<or> (\<exists>e. outcome ?r = Inl (Some e))"
    by (cases "search_operation task config (attempts ?r - 1)") auto
  then show ?thesis
    by (auto simp add: wrapper_for_def executeSearchTask_def r Let_def)
qed

lemma searchTask_promise_fulfilled:
  "\<exists>w t. fst (searchTask_promise mon task config now) = (Fulfilled w, t) \<and> wrapper_for task w"
  using executeSearchTask_wrapper [of task mon config now]
  by (cases "executeSearchTask mon task config now") (simp add: searchTask_promise_def)

lemma searchTask_promise_fulfilled_for:
  "fulfilled_for task (fst (searchTask_promise mon task config now))"
  using searchTask_promise_fulfilled [of mon task config now] by auto

lemma start_all_fulfilled:
  "list_all2 fulfilled_for tasks (fst (start_all mon tasks config now))"
proof (induction tasks arbitrary: mon)
  case Nil
  then show ?case by simp
next
  case (Cons task tasks)
  obtain promise mon1 where p: "searchTask_promise mon task config now = (promise, mon1)"
    by (cases "searchTask_promise mon task config now")
  obtain promises mon2 where ps: "start_all mon1 tasks config now = (promises, mon2)"
    by (cases "start_all mon1 tasks config now")
  have "fulfilled_for task promise"
    using searchTask_promise_fulfilled_for [of task mon config now] p by simp
  moreover have "list_all2 fulfilled_for tasks promises"
    using Cons.IH [of mon1] ps by simp
  ultimately show ?case
    by (simp add: p ps)
qed

lemma settled_wrapper_fulfilled:
  assumes "fulfilled_for task promise"
  shows "wrapper_for task (settled_wrapper t (task, promise))"
  using assms by (cases "(task, promise)" rule: fulfilled_for.cases) (simp_all add: settled_wrapper_def)

lemma executeFullParallel_one_per_task:
  "list_all2 wrapper_for tasks (fst (executeFullParallel mon tasks config now))"
proof -
  obtain promises mon' where s: "start_all mon tasks config now = (promises, mon')"
    by (cases "start_all mon tasks config now")
  have f: "list_all2 fulfilled_for tasks promises"
    using start_all_fulfilled [of tasks mon config now] s by simp
  then have len: "length tasks = length promises"
    by (rule list_all2_lengthD)
  have "list_all2 wrapper_for tasks
          (map (settled_wrapper (all_settled_at now promises)) (zip tasks promises))"
    unfolding list_all2_conv_all_nth
  proof (intro conjI allI impI)
    show "length tasks = length (map (settled_wrapper (all_settled_at now promises)) (zip tasks promises))"
      using len by simp
  next
    fix i assume i: "i < length tasks"
    then have "fulfilled_for (tasks ! i) (promises ! i)"
      using f by (simp add: list_all2_conv_all_nth)
    then show "wrapper_for (tasks ! i)
                 (map (settled_wrapper (all_settled_at now promises)) (zip tasks promises) ! i)"
      using i len by (simp add: settled_wrapper_fulfilled)
  qed
  then show ?thesis
    by (simp add: executeFullParallel_def s)
qed

lemma batch_loop_one_per_task:
  assumes "0 < b" and "list_all2 wrapper_for done results"
  shows "list_all2 wrapper_for (done @ remaining)
           (fst (batch_loop b mon remaining config now results))"
  using assms
proof (induction b mon remaining config now results arbitrary: "done" rule: batch_loop.induct)
  case (1 b mon remaining config now results)
  show ?case
  proof (cases "remaining = []")
    case True
    then show ?thesis
      using "1.prems" by (subst batch_loop.simps) simp
  next
    case False
    obtain processed mon' now' where
      e: "executeFullParallel mon (take b remaining) config now = (processed, mon', now')"
      by (cases "executeFullParallel mon (take b remaining) config now")
    have batch: "list_all2 wrapper_for (take b remaining) processed"
      using executeFullParallel_one_per_task [of "take b remaining" mon config now] e by simp
    have acc: "list_all2 wrapper_for (done @ take b remaining) (results @ processed)"
      using "1.prems"(2) batch by (rule list_all2_appendI)
    have "list_all2 wrapper_for ((done @ take b remaining) @ drop b remaining)
            (fst (batch_loop b mon' (drop b remaining) config now' (results @ processed)))"
      using "1.IH" [OF _ e [symmetric] refl "1.prems"(1) acc] False "1.prems"(1)
      by simp
    then show ?thesis
      using False "1.prems"(1) e by (subst batch_loop.simps) simp
  qed
qed

lemma executeBatchParallel_one_per_task:
  "list_all2 wrapper_for tasks (fst (executeBatchParallel mon tasks config now))"
proof -
  have "list_all2 wrapper_for ([] @ tasks) (fst (batch_loop b mon tasks config now []))"
    if "0 < b" for b
    by (rule batch_loop_one_per_task) (use that in simp_all)
  then show ?thesis
    by (simp add: executeBatchParallel_def Let_def split: option.split)
qed

lemma executeSequential_loop_one_per_task:
  assumes "list_all2 wrapper_for done results"
  shows "list_all2 wrapper_for (done @ tasks)
           (fst (executeSequential_loop mon tasks config now results))"
  using assms
proof (induction tasks arbitrary: mon now results "done")
  case Nil
  then show ?case by simp
next
  case (Cons task tasks)
  obtain w t where p: "fst (searchTask_promise mon task config now) = (Fulfilled w, t)"
    and w: "wrapper_for task w"
    using searchTask_promise_fulfilled [of mon task config now] by blast
  obtain mon' where full: "searchTask_promise mon task config now = ((Fulfilled w, t), mon')"
    using p by (cases "searchTask_promise mon task config now") simp
  have "list_all2 wrapper_for (done @ [task]) (results @ [w])"
    using Cons.prems w by (simp add: list_all2_appendI)
  from Cons.IH [OF this, of mon' t] show ?case
    by (simp add: full)
qed

lemma executeSequential_one_per_task:
  "list_all2 wrapper_for tasks (fst (executeSequential mon tasks config now))"
  using executeSequential_loop_one_per_task [of "[]" "[]" tasks mon config now]
  by (simp add: executeSequential_def)

text \<open>
  Smart-parallel execution with a window of at least one returns, without throwing, as
  many wrappers as there are tasks.
\<close>

lemma searchTask_promise_is_fulfilled:
  "is_fulfilled (fst (searchTask_promise mon task config now))"
  using searchTask_promise_fulfilled [of mon task config now] by auto

lemma fill_window_fulfilled:
  assumes "fill_window oc config mon now executing started queue
             = (mon1, executing1, started1, queue1)"
    and "list_all is_fulfilled executing"
  shows "list_all is_fulfilled executing1"
  using assms
proof (induction queue arbitrary: mon executing started)
  case Nil
  then show ?case by simp
next
  case (Cons task queue)
  show ?case
  proof (cases "int (length executing) < oc")
    case True
    obtain promise mon' where p: "searchTask_promise mon task config now = (promise, mon')"
      by (cases "searchTask_promise mon task config now")
    have f: "is_fulfilled promise"
      using searchTask_promise_is_fulfilled [of mon task config now] p by simp
    have "fill_window oc config mon' now (executing @ [promise]) (started @ [promise]) queue
            = (mon1, executing1, started1, queue1)"
      using Cons.prems(1) True p by simp
    then show ?thesis
      by (rule Cons.IH) (use Cons.prems(2) f in simp)
  next
    case False
    then show ?thesis using Cons.prems by simp
  qed
qed

lemma fill_window_keeps_nonempty:
  assumes "fill_window oc config mon now executing started queue
             = (mon1, executing1, started1, queue1)"
    and "executing \<noteq> []"
  shows "executing1 \<noteq> []"
  using assms
proof (induction queue arbitrary: mon executing started)
  case Nil
  then show ?case by simp
next
  case (Cons task queue)
  show ?case
  proof (cases "int (length executing) < oc")
    case True
    obtain promise mon' where p: "searchTask_promise mon task config now = (promise, mon')"
      by (cases "searchTask_promise mon task config now")
    have "fill_window oc config mon' now (executing @ [promise]) (started @ [promise]) queue
            = (mon1, executing1, started1, queue1)"
      using Cons.prems(1) True p by simp
    then show ?thesis
      by (rule Cons.IH) simp
  next
    case False
    then show ?thesis using Cons.prems by simp
  qed
qed

lemma fill_window_takes_task:
  assumes f: "fill_window oc config mon now executing started queue
             = (mon1, executing1, started1, queue1)"
    and "1 \<le> oc" and "queue \<noteq> [] \<or> executing \<noteq> []"
  shows "executing1 \<noteq> []"
proof (cases "executing = []")
  case False
  then show ?thesis by (rule fill_window_keeps_nonempty [OF f])
next
  case True
  then obtain task rest where q: "queue = task # rest"
    using assms(3) by (cases queue) auto
  obtain promise mon' where p: "searchTask_promise mon task config now = (promise, mon')"
    by (cases "searchTask_promise mon task config now")
  have "fill_window oc config mon' now [promise] (started @ [promise]) rest
          = (mon1, executing1, started1, queue1)"
    using f True q p assms(2) by simp
  then show ?thesis
    by (rule fill_window_keeps_nonempty) simp
qed

lemma race_member:
  assumes "executing \<noteq> []"
  shows "race now executing \<in> set executing"
proof (cases "filter (\<lambda>p. snd p \<le> now) executing")
  case Nil
  then show ?thesis
    using assms by (simp add: race_def arg_min_list_in)
next
  case (Cons p ps)
  then have "p \<in> set (filter (\<lambda>p. snd p \<le> now) executing)" by simp
  then have "p \<in> set executing" by simp
  then show ?thesis
    using Cons by (simp add: race_def)
qed

lemma smart_loop_returns:
  assumes "1 \<le> oc" and "list_all is_fulfilled executing"
  shows "\<exists>rs m t l. smart_loop oc config mon now results executing started queue flog
                      = Returned rs m t l
                    \<and> length rs = length results + length executing + length queue"
  using assms
proof (induction oc config mon now results executing started queue flog rule: smart_loop.induct)
  case (1 oc config mon now results executing started queue flog)
  show ?case
  proof (cases "queue = [] \<and> executing = []")
    case True
    then show ?thesis
      by (subst smart_loop.simps) simp
  next
    case False
    obtain mon1 executing1 started1 queue1 where
      f: "fill_window oc config mon now executing started queue
            = (mon1, executing1, started1, queue1)"
      by (cases "fill_window oc config mon now executing started queue")
    have ne: "executing1 \<noteq> []"
      by (rule fill_window_takes_task [OF f "1.prems"(1)]) (use False in auto)
    have ful: "list_all is_fulfilled executing1"
      by (rule fill_window_fulfilled [OF f "1.prems"(2)])
    have len: "length executing1 + length queue1 = length executing + length queue"
      using fill_window_lengths [OF f] by simp
    have "is_fulfilled (race now executing1)"
      using race_member [OF ne, of now] ful by (simp add: list_all_iff)
    then obtain res settles_at where r: "race now executing1 = (Fulfilled res, settles_at)"
      by (cases "race now executing1" rule: is_fulfilled.cases) auto
    let ?executing2 = "splice_one executing1 0"
    have idx: "findIndex_async executing1 res = 0"
      using ne by (simp add: findIndex_async_def)
    have ful2: "list_all is_fulfilled ?executing2"
      using ful ne by (cases executing1) (simp_all add: splice_one_def)
    have len2: "length ?executing2 + 1 = length executing1"
      using ne by (cases executing1) (simp_all add: splice_one_def)
    have "\<exists>rs m t l. smart_loop oc config mon1 (max now settles_at) (results @ [res])
                         ?executing2 started1 queue1 (flog @ [in_flight now started1])
                       = Returned rs m t l
                     \<and> length rs = length (results @ [res]) + length ?executing2 + length queue1"
      using "1.IH" [OF False f [symmetric] refl refl ne r [symmetric] refl "1.prems"(1)] idx ful2
      by simp
    then show ?thesis
      using False f ne r idx len len2
      by (subst smart_loop.simps) auto
  qed
qed

text \<open>
  Claim C5 under the smart strategy. Two providers without history, computed concurrency
  2; the search of the first task (arXiv) takes 500 ms, that of the second (PubMed) 100 ms.
  The race is won by PubMed's wrapper, but the entry removed from the window is the first
  one, arXiv's; the next race returns PubMed's wrapper again. The run returns two wrappers,
  both PubMed's, and none for arXiv.
\<close>

theorem smart_parallel_drops_and_repeats:
  "map task_source (fst (createSearchTasks Map.empty
        [driver_taking ARXIV 500, driver_taking PUBMED 100] 0)) = [ARXIV, PUBMED]
   \<and> map_option (map wrapper_source)
        (outcome_results (executeParallelSearch Map.empty
           [driver_taking ARXIV 500, driver_taking PUBMED 100] (smart_config 10) 0))
       = Some [PUBMED, PUBMED]"
  by (simp add: executeParallelSearch_def createSearchTasks_def getMetrics_def
        calculateOptimalConcurrency_def executeSmartParallel_def smart_loop.simps
        fresh_promise race_def findIndex_async_def splice_one_def in_flight_def
        outcome_results_def smart_config_fields driver_taking_fields
        searchTask_of_fields initMetrics_def split_def Let_def)

text \<open>
  Claim C6. Four providers without history and \<open>maxConcurrency = 2\<close>, so the computed
  bound is 2; the searches take 1000, 100, 1000 and 1000 ms. Each time the window has been
  refilled the tasks started and not yet settled number 2, 2, 3 and 0: the third refill
  starts the fourth task while the first and the third are still running, because the
  entries removed from the window were the first task's (still running) and then the
  second's (whose result had been returned before).
\<close>

theorem smart_parallel_exceeds_bound:
  "calculateOptimalConcurrency
      (fst (createSearchTasks Map.empty
         [driver_taking ARXIV 1000, driver_taking PUBMED 100, driver_taking CORE 1000,
          driver_taking PMC 1000] 0)) (maxConcurrency (smart_config 2)) = 2
   \<and> outcome_flight_log (executeParallelSearch Map.empty
        [driver_taking ARXIV 1000, driver_taking PUBMED 100, driver_taking CORE 1000,
         driver_taking PMC 1000] (smart_config 2) 0)
       = Some [2, 2, 3, 0]"
  by (simp add: executeParallelSearch_def createSearchTasks_def getMetrics_def
        calculateOptimalConcurrency_def executeSmartParallel_def smart_loop.simps
        fresh_promise race_def findIndex_async_def splice_one_def in_flight_def
        outcome_flight_log_def smart_config_fields driver_taking_fields
        searchTask_of_fields initMetrics_def split_def Let_def)

end
